theory Spec2Isabelle
  imports Main "HOL-Library.Signed_Division"
begin

section \<open>The ring buffer of \<open>src/ringbuf/ringbuf.hpp\<close>\<close>

text \<open>
  \<open>RingBuffer<T, Capacity>\<close> owns a \<open>std::array<T, Capacity>\<close> and three scalars.
  The array is a list, \<open>size_t\<close> is \<open>nat\<close> and \<open>ssize_t\<close> is \<open>int\<close>. Unsigned
  arithmetic on cursors is not reduced modulo \<open>2^64\<close>: an object, and so every index
  into it, is smaller than \<open>2^63\<close>, and no sum of two of them wraps. Signed arithmetic is
  not reduced either: signed overflow is undefined in C++, and the model describes the
  executions without it. The conversions between the two types that the iterator code
  spells out are modelled with their wrap-around (\<open>to_size_t\<close>, \<open>to_ssize_t\<close>).
  The template parameter \<open>Capacity\<close> is the first argument of every operation. A mutating
  member function takes the buffer and returns the buffer it leaves behind, next to its
  \<open>std::expected\<close> result (\<open>Inl\<close> the error). Element accesses are unchecked in the
  source; \<open>cursors_run\<close> below shows that both cursors stay inside the storage in every
  state the operations can produce, so that no access of a buffer operation leaves it.
\<close>

datatype Error = Full | Empty

record 'a RingBuffer =
  buffer :: "'a list"
  write_ptr :: nat
  read_ptr :: nat
  is_full :: bool

text \<open>A default-constructed buffer: value-initialised storage, both cursors 0, not full.\<close>

definition RingBuffer_init :: "nat \<Rightarrow> ('a::zero) RingBuffer" where
  "RingBuffer_init Capacity =
     \<lparr>buffer = replicate Capacity 0, write_ptr = 0, read_ptr = 0, is_full = False\<rparr>"

subsection \<open>Queries\<close>

definition empty_rb :: "'a RingBuffer \<Rightarrow> bool" where
  "empty_rb rb = (write_ptr rb = read_ptr rb \<and> \<not> is_full rb)"

definition full_rb :: "'a RingBuffer \<Rightarrow> bool" where
  "full_rb rb = is_full rb"

definition size_rb :: "nat \<Rightarrow> 'a RingBuffer \<Rightarrow> nat" where
  "size_rb Capacity rb =
     (if is_full rb then Capacity
      else if write_ptr rb \<ge> read_ptr rb then write_ptr rb - read_ptr rb
      else write_ptr rb + (Capacity - read_ptr rb))"

definition free_rb :: "nat \<Rightarrow> 'a RingBuffer \<Rightarrow> nat" where
  "free_rb Capacity rb =
     (if is_full rb then 0
      else if write_ptr rb \<ge> read_ptr rb then (Capacity - write_ptr rb) + read_ptr rb
      else read_ptr rb - write_ptr rb)"

definition capacity_rb :: "nat \<Rightarrow> 'a RingBuffer \<Rightarrow> nat" where
  "capacity_rb Capacity rb = Capacity"

subsection \<open>\<open>std::span\<close> and \<open>std::copy\<close>\<close>

text \<open>
  \<open>s.first(n)\<close> and \<open>s.last(n)\<close> of a span, and \<open>std::copy\<close> of a range into the
  storage array from index \<open>pos\<close> on, one assignment after the other.
\<close>

definition span_first :: "nat \<Rightarrow> 'a list \<Rightarrow> 'a list" where
  "span_first n s = take n s"

definition span_last :: "nat \<Rightarrow> 'a list \<Rightarrow> 'a list" where
  "span_last n s = drop (length s - n) s"

fun copy_into :: "'a list \<Rightarrow> 'a list \<Rightarrow> nat \<Rightarrow> 'a list" where
  "copy_into [] dst pos = dst"
| "copy_into (x # xs) dst pos = copy_into xs (dst[pos := x]) (Suc pos)"

text \<open>
  The destination of \<open>pop_buffer\<close> is memory of the caller: a \<open>std::span<T>\<close> is a
  pointer and a length, and \<open>std::copy\<close> writes through the pointer without looking at
  the length. The caller's memory is a function from offsets (counted from the start of
  the span) to values, and the copy writes one offset after the other.
\<close>

fun copy_out :: "'a list \<Rightarrow> (nat \<Rightarrow> 'a) \<Rightarrow> nat \<Rightarrow> (nat \<Rightarrow> 'a)" where
  "copy_out [] mem pos = mem"
| "copy_out (x # xs) mem pos = copy_out xs (mem(pos := x)) (Suc pos)"

subsection \<open>Insertion\<close>

definition push :: "nat \<Rightarrow> 'a \<Rightarrow> 'a RingBuffer \<Rightarrow> (Error + unit) \<times> 'a RingBuffer" where
  "push Capacity v rb =
     (if is_full rb then (Inl Full, rb)
      else
        let rb1 = rb\<lparr>buffer := (buffer rb)[write_ptr rb := v], write_ptr := write_ptr rb + 1\<rparr>;
            rb2 = rb1\<lparr>write_ptr := write_ptr rb1 mod Capacity\<rparr>;
            rb3 = (if write_ptr rb2 = read_ptr rb2 then rb2\<lparr>is_full := True\<rparr> else rb2)
        in (Inr (), rb3))"

definition push_unchecked :: "nat \<Rightarrow> 'a \<Rightarrow> 'a RingBuffer \<Rightarrow> 'a RingBuffer" where
  "push_unchecked Capacity v rb =
     (let rb1 = rb\<lparr>buffer := (buffer rb)[write_ptr rb := v], write_ptr := write_ptr rb + 1\<rparr>;
          rb2 = rb1\<lparr>write_ptr := write_ptr rb1 mod Capacity\<rparr>
      in if write_ptr rb2 = read_ptr rb2 then rb2\<lparr>is_full := True\<rparr> else rb2)"

definition push_buffer ::
  "nat \<Rightarrow> 'a list \<Rightarrow> 'a RingBuffer \<Rightarrow> (Error + unit) \<times> 'a RingBuffer" where
  "push_buffer Capacity items rb =
     (if length items > free_rb Capacity rb then
        (if is_full rb then (Inl Full, rb) else (Inl Full, rb))
      else
        let space_until_wrap = Capacity - write_ptr rb;
            rb1 =
              (if length items > space_until_wrap then
                 let chunk1 = span_first space_until_wrap items;
                     chunk2 = span_last (length items - space_until_wrap) items
                 in rb\<lparr>buffer := copy_into chunk2 (copy_into chunk1 (buffer rb) (write_ptr rb)) 0\<rparr>
               else rb\<lparr>buffer := copy_into items (buffer rb) (write_ptr rb)\<rparr>);
            rb2 = rb1\<lparr>write_ptr := (write_ptr rb1 + length items) mod Capacity\<rparr>;
            rb3 = (if write_ptr rb2 = read_ptr rb2 then rb2\<lparr>is_full := True\<rparr> else rb2)
        in (Inr (), rb3))"

subsection \<open>Removal\<close>

definition pop :: "nat \<Rightarrow> 'a RingBuffer \<Rightarrow> (Error + 'a) \<times> 'a RingBuffer" where
  "pop Capacity rb =
     (if empty_rb rb then (Inl Empty, rb)
      else
        let v = buffer rb ! read_ptr rb;
            rb1 = rb\<lparr>read_ptr := read_ptr rb + 1\<rparr>;
            rb2 = rb1\<lparr>read_ptr := read_ptr rb1 mod Capacity\<rparr>;
            rb3 = rb2\<lparr>is_full := False\<rparr>
        in (Inr v, rb3))"

definition pop_unchecked :: "nat \<Rightarrow> 'a RingBuffer \<Rightarrow> 'a \<times> 'a RingBuffer" where
  "pop_unchecked Capacity rb =
     (let v = buffer rb ! read_ptr rb;
          rb1 = rb\<lparr>read_ptr := read_ptr rb + 1\<rparr>;
          rb2 = rb1\<lparr>read_ptr := read_ptr rb1 mod Capacity\<rparr>;
          rb3 = rb2\<lparr>is_full := False\<rparr>
      in (v, rb3))"

text \<open>
  \<open>pop_buffer\<close> takes the length \<open>len\<close> of the destination span and the caller's memory
  \<open>mem\<close> behind it, and returns that memory as the copies leave it.
\<close>

definition pop_buffer ::
  "nat \<Rightarrow> nat \<Rightarrow> (nat \<Rightarrow> 'a) \<Rightarrow> 'a RingBuffer
     \<Rightarrow> (Error + unit) \<times> (nat \<Rightarrow> 'a) \<times> 'a RingBuffer" where
  "pop_buffer Capacity len mem rb =
     (if len > size_rb Capacity rb then
        (if empty_rb rb then (Inl Empty, mem, rb) else (Inl Empty, mem, rb))
      else
        let items_until_wrap = Capacity - read_ptr rb;
            mem1 =
              (if len > items_until_wrap then
                 let chunk1 = span_last items_until_wrap (buffer rb);
                     chunk2 = span_first (len - items_until_wrap) (buffer rb)
                 in copy_out chunk2 (copy_out chunk1 mem 0) items_until_wrap
               else
                 let range = take items_until_wrap (drop (read_ptr rb) (buffer rb))
                 in copy_out range mem 0);
            rb1 = rb\<lparr>read_ptr := (read_ptr rb + len) mod Capacity\<rparr>;
            rb2 = rb1\<lparr>is_full := False\<rparr>
        in (Inr (), mem1, rb2))"

definition clear :: "'a RingBuffer \<Rightarrow> 'a RingBuffer" where
  "clear rb = rb\<lparr>write_ptr := 0, read_ptr := 0, is_full := False\<rparr>"

section \<open>The iterator and the sentinel of \<open>src/ringbuf/iterator.hpp\<close>\<close>

text \<open>
  \<open>static_cast<ssize_t>\<close> of a \<open>size_t\<close> and \<open>static_cast<size_t>\<close> of an \<open>ssize_t\<close>,
  both 64 bits wide, two's complement.
\<close>

definition to_ssize_t :: "nat \<Rightarrow> int" where
  "to_ssize_t n =
     (if n mod 2 ^ 64 < 2 ^ 63 then int (n mod 2 ^ 64) else int (n mod 2 ^ 64) - 2 ^ 64)"

definition to_size_t :: "int \<Rightarrow> nat" where
  "to_size_t i = nat (i mod 2 ^ 64)"

text \<open>
  An iterator holds a span over the storage (here the storage as it was when the iterator
  was made: no claim below writes through an iterator), a physical index and a signed
  cycle count. The sentinel holds an index and a cycle count.
\<close>

record 'a Iterator =
  data :: "'a list"
  ptr :: nat
  cycle :: int

record Sentinel =
  sentinel_ptr :: nat
  sentinel_cycle :: int

text \<open>The constructors take the cycle as a \<open>size_t\<close> and convert it.\<close>

definition Iterator_new :: "'a list \<Rightarrow> nat \<Rightarrow> nat \<Rightarrow> 'a Iterator" where
  "Iterator_new d p c = \<lparr>data = d, ptr = p, cycle = to_ssize_t c\<rparr>"

definition Sentinel_new :: "nat \<Rightarrow> nat \<Rightarrow> Sentinel" where
  "Sentinel_new p c = \<lparr>sentinel_ptr = p, sentinel_cycle = to_ssize_t c\<rparr>"

definition eq_sentinel :: "'a Iterator \<Rightarrow> Sentinel \<Rightarrow> bool" where
  "eq_sentinel it other = (cycle it = sentinel_cycle other \<and> ptr it = sentinel_ptr other)"

definition eq_iterator :: "'a Iterator \<Rightarrow> 'a Iterator \<Rightarrow> bool" where
  "eq_iterator it other = (cycle it = cycle other \<and> ptr it = ptr other)"

text \<open>
  \<open>operator*\<close> and \<open>operator[]\<close> index the span without a check: an index outside the
  span (or a remainder by the size of an empty span) is undefined behaviour, \<open>None\<close> here.
\<close>

definition deref :: "'a Iterator \<Rightarrow> 'a option" where
  "deref it = (if ptr it < length (data it) then Some (data it ! ptr it) else None)"

definition subscript :: "'a Iterator \<Rightarrow> nat \<Rightarrow> 'a option" where
  "subscript it index =
     (if length (data it) = 0 then None
      else
        let index_adj = ((ptr it + index) mod 2 ^ 64) mod length (data it)
        in Some (data it ! index_adj))"

text \<open>
  \<open>data.size() - 1\<close> is unsigned: it is \<open>2^64 - 1\<close> for an empty span. Each of the two
  post-forms returns the copy taken before the step, then the stepped iterator.
\<close>

definition pre_increment :: "'a Iterator \<Rightarrow> 'a Iterator" where
  "pre_increment it =
     (if ptr it \<ge> (length (data it) + 2 ^ 64 - 1) mod 2 ^ 64
      then it\<lparr>ptr := 0, cycle := cycle it + 1\<rparr>
      else it\<lparr>ptr := ptr it + 1\<rparr>)"

definition post_increment :: "'a Iterator \<Rightarrow> 'a Iterator \<times> 'a Iterator" where
  "post_increment it =
     (let v = it
      in (v, if ptr it \<ge> (length (data it) + 2 ^ 64 - 1) mod 2 ^ 64
             then it\<lparr>ptr := 0, cycle := cycle it + 1\<rparr>
             else it\<lparr>ptr := ptr it + 1\<rparr>))"

definition pre_decrement :: "'a Iterator \<Rightarrow> 'a Iterator" where
  "pre_decrement it =
     (if ptr it = 0
      then it\<lparr>ptr := (length (data it) + 2 ^ 64 - 1) mod 2 ^ 64, cycle := cycle it - 1\<rparr>
      else it\<lparr>ptr := ptr it - 1\<rparr>)"

definition post_decrement :: "'a Iterator \<Rightarrow> 'a Iterator \<times> 'a Iterator" where
  "post_decrement it =
     (let v = it
      in (v, if ptr it = 0
             then it\<lparr>ptr := (length (data it) + 2 ^ 64 - 1) mod 2 ^ 64, cycle := cycle it - 1\<rparr>
             else it\<lparr>ptr := ptr it - 1\<rparr>))"

text \<open>Distances: iterator minus sentinel, iterator minus iterator, sentinel minus iterator.\<close>

definition minus_sentinel :: "'a Iterator \<Rightarrow> Sentinel \<Rightarrow> int" where
  "minus_sentinel it other =
     (let this_ptr = to_ssize_t (ptr it);
          other_ptr = to_ssize_t (sentinel_ptr other);
          data_size = to_ssize_t (length (data it));
          this_pos = this_ptr + (cycle it * data_size);
          other_pos = other_ptr + (sentinel_cycle other * data_size)
      in this_pos - other_pos)"

definition minus_iterator :: "'a Iterator \<Rightarrow> 'a Iterator \<Rightarrow> int" where
  "minus_iterator it other =
     (let this_ptr = to_ssize_t (ptr it);
          other_ptr = to_ssize_t (ptr other);
          this_size = to_ssize_t (length (data it));
          other_size = to_ssize_t (length (data other));
          this_pos = this_ptr + (cycle it * this_size);
          other_pos = other_ptr + (cycle other * other_size)
      in this_pos - other_pos)"

definition sentinel_minus :: "Sentinel \<Rightarrow> 'a Iterator \<Rightarrow> int" where
  "sentinel_minus s other =
     (let this_pos = to_ssize_t (sentinel_ptr s)
                       + (sentinel_cycle s * to_ssize_t (length (data other)));
          other_pos = to_ssize_t (ptr other) + (cycle other * to_ssize_t (length (data other)))
      in this_pos - other_pos)"

text \<open>
  The four offset operations. \<open>std::div\<close> truncates towards zero: its quotient and
  remainder are \<open>sdiv\<close> and \<open>smod\<close>. The two \<open>if\<close> statements run one after the
  other, the second on what the first left.
\<close>

definition plus_assign :: "'a Iterator \<Rightarrow> int \<Rightarrow> 'a Iterator" where
  "plus_assign it other =
     (let old_ptr = to_ssize_t (ptr it);
          data_size = to_ssize_t (length (data it));
          new_ptr = old_ptr + other;
          (cycle1, new_ptr1) =
            (if new_ptr \<ge> data_size
             then (cycle it + new_ptr sdiv data_size, new_ptr smod data_size)
             else (cycle it, new_ptr));
          (cycle2, new_ptr2) =
            (if new_ptr1 < 0
             then (cycle1 + new_ptr1 sdiv data_size, data_size + new_ptr1 smod data_size)
             else (cycle1, new_ptr1))
      in it\<lparr>ptr := to_size_t new_ptr2, cycle := cycle2\<rparr>)"

definition minus_assign :: "'a Iterator \<Rightarrow> int \<Rightarrow> 'a Iterator" where
  "minus_assign it other =
     (let old_ptr = to_ssize_t (ptr it);
          data_size = to_ssize_t (length (data it));
          new_ptr = old_ptr - other;
          (cycle1, new_ptr1) =
            (if new_ptr \<ge> data_size
             then (cycle it + new_ptr sdiv data_size, new_ptr smod data_size)
             else (cycle it, new_ptr));
          (cycle2, new_ptr2) =
            (if new_ptr1 < 0
             then (cycle1 + new_ptr1 sdiv data_size, data_size + new_ptr1 smod data_size)
             else (cycle1, new_ptr1))
      in it\<lparr>ptr := to_size_t new_ptr2, cycle := cycle2\<rparr>)"

definition iterator_plus :: "'a Iterator \<Rightarrow> int \<Rightarrow> 'a Iterator" where
  "iterator_plus lhs rhs =
     (let lhs_ptr = to_ssize_t (ptr lhs);
          data_size = to_ssize_t (length (data lhs));
          p = lhs_ptr + rhs;
          c = cycle lhs;
          (c1, p1) =
            (if p \<ge> data_size then (c + p sdiv data_size, p smod data_size) else (c, p));
          (c2, p2) =
            (if p1 < 0 then (c1 + p1 sdiv data_size, data_size + p1 smod data_size)
             else (c1, p1))
      in Iterator_new (data lhs) (to_size_t p2) (to_size_t c2))"

definition offset_plus_iterator :: "int \<Rightarrow> 'a Iterator \<Rightarrow> 'a Iterator" where
  "offset_plus_iterator lhs rhs = iterator_plus rhs lhs"

definition iterator_minus :: "'a Iterator \<Rightarrow> int \<Rightarrow> 'a Iterator" where
  "iterator_minus lhs rhs =
     (let lhs_ptr = to_ssize_t (ptr lhs);
          data_size = to_ssize_t (length (data lhs));
          p = lhs_ptr - rhs;
          c = cycle lhs;
          (c1, p1) =
            (if p \<ge> data_size then (c + p sdiv data_size, p smod data_size) else (c, p));
          (c2, p2) =
            (if p1 < 0 then (c1 + p1 sdiv data_size, data_size + p1 smod data_size)
             else (c1, p1))
      in Iterator_new (data lhs) (to_size_t p2) (to_size_t c2))"

text \<open>\<open>begin()\<close> and \<open>end()\<close> of the buffer.\<close>

definition begin_rb :: "'a RingBuffer \<Rightarrow> 'a Iterator" where
  "begin_rb rb = Iterator_new (buffer rb) (read_ptr rb) 0"

definition end_rb :: "'a RingBuffer \<Rightarrow> Sentinel" where
  "end_rb rb =
     (if write_ptr rb < read_ptr rb \<or> full_rb rb then Sentinel_new (write_ptr rb) 1
      else Sentinel_new (write_ptr rb) 0)"

text \<open>The logical position of an iterator over storage of \<open>n\<close> elements.\<close>

definition position :: "nat \<Rightarrow> 'a Iterator \<Rightarrow> int" where
  "position n it = int (ptr it) + cycle it * int n"

section \<open>Sequences of operations\<close>

text \<open>
  A caller is a list of calls of the public mutating member functions. \<open>apply_op\<close> is the
  buffer one call leaves behind, \<open>run\<close> the buffer after all of them, \<open>outcome\<close> what
  the call hands back to the caller, \<open>outcomes\<close> the list of these for a whole run.
\<close>

datatype 'a Op =
    Push 'a | PushUnchecked 'a | PushBuffer "'a list"
  | Pop | PopUnchecked | PopBuffer nat "nat \<Rightarrow> 'a" | Clear

datatype 'a Outcome = Done | Failed Error | Popped 'a

fun apply_op :: "nat \<Rightarrow> 'a Op \<Rightarrow> 'a RingBuffer \<Rightarrow> 'a RingBuffer" where
  "apply_op Capacity (Push v) rb = snd (push Capacity v rb)"
| "apply_op Capacity (PushUnchecked v) rb = push_unchecked Capacity v rb"
| "apply_op Capacity (PushBuffer items) rb = snd (push_buffer Capacity items rb)"
| "apply_op Capacity Pop rb = snd (pop Capacity rb)"
| "apply_op Capacity PopUnchecked rb = snd (pop_unchecked Capacity rb)"
| "apply_op Capacity (PopBuffer len mem) rb = snd (snd (pop_buffer Capacity len mem rb))"
| "apply_op Capacity Clear rb = clear rb"

fun run :: "nat \<Rightarrow> 'a Op list \<Rightarrow> 'a RingBuffer \<Rightarrow> 'a RingBuffer" where
  "run Capacity [] rb = rb"
| "run Capacity (op # ops) rb = run Capacity ops (apply_op Capacity op rb)"

fun void_outcome :: "Error + unit \<Rightarrow> 'a Outcome" where
  "void_outcome (Inl e) = Failed e"
| "void_outcome (Inr u) = Done"

fun value_outcome :: "Error + 'a \<Rightarrow> 'a Outcome" where
  "value_outcome (Inl e) = Failed e"
| "value_outcome (Inr v) = Popped v"

fun outcome :: "nat \<Rightarrow> 'a Op \<Rightarrow> 'a RingBuffer \<Rightarrow> 'a Outcome" where
  "outcome Capacity (Push v) rb = void_outcome (fst (push Capacity v rb))"
| "outcome Capacity (PushUnchecked v) rb = Done"
| "outcome Capacity (PushBuffer items) rb = void_outcome (fst (push_buffer Capacity items rb))"
| "outcome Capacity Pop rb = value_outcome (fst (pop Capacity rb))"
| "outcome Capacity PopUnchecked rb = Popped (fst (pop_unchecked Capacity rb))"
| "outcome Capacity (PopBuffer len mem) rb =
     void_outcome (fst (pop_buffer Capacity len mem rb))"
| "outcome Capacity Clear rb = Done"

fun outcomes :: "nat \<Rightarrow> 'a Op list \<Rightarrow> 'a RingBuffer \<Rightarrow> 'a Outcome list" where
  "outcomes Capacity [] rb = []"
| "outcomes Capacity (op # ops) rb =
     outcome Capacity op rb # outcomes Capacity ops (apply_op Capacity op rb)"

fun succeeded :: "'a Outcome \<Rightarrow> bool" where
  "succeeded (Failed e) = False"
| "succeeded _ = True"

text \<open>The values a run pushes one by one, the values its pops return, and its number of pops.\<close>

fun pushed :: "'a Op list \<Rightarrow> 'a list" where
  "pushed [] = []"
| "pushed (Push v # ops) = v # pushed ops"
| "pushed (op # ops) = pushed ops"

fun popped :: "'a Outcome list \<Rightarrow> 'a list" where
  "popped [] = []"
| "popped (Popped v # outs) = v # popped outs"
| "popped (out # outs) = popped outs"

fun pops :: "'a Op list \<Rightarrow> nat" where
  "pops [] = 0"
| "pops (Pop # ops) = Suc (pops ops)"
| "pops (op # ops) = pops ops"

text \<open>
  A run of single-element pushes and pops in which no push is issued while \<open>full()\<close>
  holds and no pop while \<open>empty()\<close> holds.
\<close>

fun push_pop_allowed :: "'a Op \<Rightarrow> 'a RingBuffer \<Rightarrow> bool" where
  "push_pop_allowed (Push v) rb = (\<not> full_rb rb)"
| "push_pop_allowed Pop rb = (\<not> empty_rb rb)"
| "push_pop_allowed _ rb = False"

fun push_pop_sequence :: "nat \<Rightarrow> 'a Op list \<Rightarrow> 'a RingBuffer \<Rightarrow> bool" where
  "push_pop_sequence Capacity [] rb = True"
| "push_pop_sequence Capacity (op # ops) rb =
     (push_pop_allowed op rb \<and> push_pop_sequence Capacity ops (apply_op Capacity op rb))"

text \<open>The checked operations, and a run whose \<open>push_unchecked\<close> calls all find space.\<close>

fun checked_op :: "'a Op \<Rightarrow> bool" where
  "checked_op (PushUnchecked v) = False"
| "checked_op PopUnchecked = False"
| "checked_op _ = True"

fun push_unchecked_allowed :: "'a Op \<Rightarrow> 'a RingBuffer \<Rightarrow> bool" where
  "push_unchecked_allowed (PushUnchecked v) rb = (\<not> full_rb rb)"
| "push_unchecked_allowed _ rb = True"

fun push_unchecked_has_space :: "nat \<Rightarrow> 'a Op list \<Rightarrow> 'a RingBuffer \<Rightarrow> bool" where
  "push_unchecked_has_space Capacity [] rb = True"
| "push_unchecked_has_space Capacity (op # ops) rb =
     (push_unchecked_allowed op rb
      \<and> push_unchecked_has_space Capacity ops (apply_op Capacity op rb))"

text \<open>
  With the capacity 0 the storage has no slot and \<open>% Capacity\<close> divides by zero. A call
  is defined there only if it returns before it touches either: on the error return of a
  checked operation, or in \<open>clear()\<close>.
\<close>

fun returns_before_storage :: "nat \<Rightarrow> 'a Op \<Rightarrow> 'a RingBuffer \<Rightarrow> bool" where
  "returns_before_storage Capacity (Push v) rb = is_full rb"
| "returns_before_storage Capacity (PushUnchecked v) rb = False"
| "returns_before_storage Capacity (PushBuffer items) rb = (length items > free_rb Capacity rb)"
| "returns_before_storage Capacity Pop rb = empty_rb rb"
| "returns_before_storage Capacity PopUnchecked rb = False"
| "returns_before_storage Capacity (PopBuffer len mem) rb = (len > size_rb Capacity rb)"
| "returns_before_storage Capacity Clear rb = True"

fun returns_before_storage_run :: "nat \<Rightarrow> 'a Op list \<Rightarrow> 'a RingBuffer \<Rightarrow> bool" where
  "returns_before_storage_run Capacity [] rb = True"
| "returns_before_storage_run Capacity (op # ops) rb =
     (returns_before_storage Capacity op rb
      \<and> returns_before_storage_run Capacity ops (apply_op Capacity op rb))"

section \<open>Invariants and the abstraction to a queue\<close>

definition cursors_in_range :: "nat \<Rightarrow> 'a RingBuffer \<Rightarrow> bool" where
  "cursors_in_range Capacity rb =
     (length (buffer rb) = Capacity \<and> write_ptr rb < Capacity \<and> read_ptr rb < Capacity)"

definition full_flag_ok :: "'a RingBuffer \<Rightarrow> bool" where
  "full_flag_ok rb = (is_full rb \<longrightarrow> write_ptr rb = read_ptr rb)"

text \<open>The live elements, oldest first: \<open>size()\<close> slots from the read cursor on, wrapping.\<close>

definition contents :: "nat \<Rightarrow> 'a RingBuffer \<Rightarrow> 'a list" where
  "contents Capacity rb =
     map (\<lambda>i. buffer rb ! ((read_ptr rb + i) mod Capacity)) [0..<size_rb Capacity rb]"

text \<open>A full buffer of capacity 64 that holds 0 to 63 from the read cursor 40 on.\<close>

definition wrapped_full_buffer :: "nat RingBuffer" where
  "wrapped_full_buffer =
     \<lparr>buffer = [24..<64] @ [0..<24], write_ptr = 40, read_ptr = 40, is_full = True\<rparr>"

section \<open>Properties of the ring buffer\<close>

text \<open>
  Claim C7. For every state of the buffer (any write and read cursor in \<open>[0, Capacity)\<close>
  and any value of the full flag), \<open>size() + free() == capacity()\<close>.
\<close>

theorem size_plus_free_eq_capacity:
  assumes "write_ptr rb < Capacity" and "read_ptr rb < Capacity"
  shows "size_rb Capacity rb + free_rb Capacity rb = capacity_rb Capacity rb"
  using assms by (simp add: size_rb_def free_rb_def capacity_rb_def)

theorem size_plus_free_eq_capacity_witness:
  "write_ptr \<lparr>buffer = [7, 8, 9, 0::nat], write_ptr = 1, read_ptr = 3, is_full = False\<rparr> < 4
   \<and> read_ptr \<lparr>buffer = [7, 8, 9, 0::nat], write_ptr = 1, read_ptr = 3, is_full = False\<rparr> < 4
   \<and> size_rb 4 \<lparr>buffer = [7, 8, 9, 0::nat], write_ptr = 1, read_ptr = 3, is_full = False\<rparr> = 2
   \<and> size_rb 4 \<lparr>buffer = [7, 8, 9, 0::nat], write_ptr = 1, read_ptr = 3, is_full = False\<rparr>
       + free_rb 4 \<lparr>buffer = [7, 8, 9, 0::nat], write_ptr = 1, read_ptr = 3, is_full = False\<rparr>
     = capacity_rb 4 \<lparr>buffer = [7, 8, 9, 0::nat], write_ptr = 1, read_ptr = 3, is_full = False\<rparr>"
  using size_plus_free_eq_capacity
    [of "\<lparr>buffer = [7, 8, 9, 0::nat], write_ptr = 1, read_ptr = 3, is_full = False\<rparr>" 4]
  by (simp add: size_rb_def)

subsection \<open>Both cursors stay inside the storage\<close>

lemma mod_wrap: "a < 2 * n \<Longrightarrow> (a::nat) mod n = (if a < n then a else a - n)"
  by (simp add: mod_if)

lemma replicate_numeral: "replicate (numeral k) x = x # replicate (pred_numeral k) x"
  by (simp add: numeral_eq_Suc)

lemma length_copy_into: "length (copy_into xs dst pos) = length dst"
  by (induction xs arbitrary: dst pos) auto

lemma cursors_init: "0 < Capacity \<Longrightarrow> cursors_in_range Capacity (RingBuffer_init Capacity)"
  by (simp add: cursors_in_range_def RingBuffer_init_def)

lemma cursors_push:
  "cursors_in_range Capacity rb \<Longrightarrow> cursors_in_range Capacity (snd (push Capacity v rb))"
  by (simp add: cursors_in_range_def push_def Let_def)

lemma cursors_push_unchecked:
  "cursors_in_range Capacity rb \<Longrightarrow> cursors_in_range Capacity (push_unchecked Capacity v rb)"
  by (simp add: cursors_in_range_def push_unchecked_def Let_def)

lemma cursors_push_buffer:
  "cursors_in_range Capacity rb \<Longrightarrow>
   cursors_in_range Capacity (snd (push_buffer Capacity items rb))"
  by (simp add: cursors_in_range_def push_buffer_def Let_def length_copy_into)

lemma cursors_pop:
  "cursors_in_range Capacity rb \<Longrightarrow> cursors_in_range Capacity (snd (pop Capacity rb))"
  by (simp add: cursors_in_range_def pop_def Let_def)

lemma cursors_pop_unchecked:
  "cursors_in_range Capacity rb \<Longrightarrow>
   cursors_in_range Capacity (snd (pop_unchecked Capacity rb))"
  by (simp add: cursors_in_range_def pop_unchecked_def Let_def)

lemma cursors_pop_buffer:
  "cursors_in_range Capacity rb \<Longrightarrow>
   cursors_in_range Capacity (snd (snd (pop_buffer Capacity len mem rb)))"
  by (simp add: cursors_in_range_def pop_buffer_def Let_def)

lemma cursors_clear:
  "cursors_in_range Capacity rb \<Longrightarrow> cursors_in_range Capacity (clear rb)"
  by (simp add: cursors_in_range_def clear_def)

lemma cursors_apply_op:
  "cursors_in_range Capacity rb \<Longrightarrow> cursors_in_range Capacity (apply_op Capacity op rb)"
  by (cases op)
     (simp_all add: cursors_push cursors_push_unchecked cursors_push_buffer cursors_pop
        cursors_pop_unchecked cursors_pop_buffer cursors_clear)

lemma cursors_run:
  "cursors_in_range Capacity rb \<Longrightarrow> cursors_in_range Capacity (run Capacity ops rb)"
  by (induction ops arbitrary: rb) (simp_all add: cursors_apply_op)

subsection \<open>The full flag\<close>

lemma flag_push: "full_flag_ok rb \<Longrightarrow> full_flag_ok (snd (push Capacity v rb))"
  by (simp add: full_flag_ok_def push_def Let_def)

lemma flag_push_unchecked:
  "\<not> full_rb rb \<Longrightarrow> full_flag_ok (push_unchecked Capacity v rb)"
  by (simp add: full_flag_ok_def full_rb_def push_unchecked_def Let_def)

lemma remainder_reduced: "a mod n = r \<Longrightarrow> r mod n = (r::nat)"
  by auto

lemma write_ptr_reduced_apply_op:
  "write_ptr rb mod Capacity = write_ptr rb \<Longrightarrow>
   write_ptr (apply_op Capacity op rb) mod Capacity = write_ptr (apply_op Capacity op rb)"
  by (cases op)
     (auto simp: push_def push_unchecked_def push_buffer_def pop_def pop_unchecked_def
        pop_buffer_def clear_def Let_def intro: remainder_reduced)

lemma flag_push_buffer:
  "write_ptr rb mod Capacity = write_ptr rb \<Longrightarrow> full_flag_ok rb \<Longrightarrow>
   full_flag_ok (snd (push_buffer Capacity items rb))"
  by (auto simp: full_flag_ok_def push_buffer_def free_rb_def Let_def)

lemma flag_pop: "full_flag_ok rb \<Longrightarrow> full_flag_ok (snd (pop Capacity rb))"
  by (simp add: full_flag_ok_def pop_def Let_def)

lemma flag_pop_unchecked: "full_flag_ok (snd (pop_unchecked Capacity rb))"
  by (simp add: full_flag_ok_def pop_unchecked_def Let_def)

lemma flag_pop_buffer:
  "full_flag_ok rb \<Longrightarrow> full_flag_ok (snd (snd (pop_buffer Capacity len mem rb)))"
  by (simp add: full_flag_ok_def pop_buffer_def Let_def)

lemma flag_clear: "full_flag_ok (clear rb)"
  by (simp add: full_flag_ok_def clear_def)

lemma flag_apply_op:
  "write_ptr rb mod Capacity = write_ptr rb \<Longrightarrow> full_flag_ok rb \<Longrightarrow>
   push_unchecked_allowed op rb \<Longrightarrow> full_flag_ok (apply_op Capacity op rb)"
  by (cases op)
     (simp_all add: flag_push flag_push_unchecked flag_push_buffer flag_pop flag_pop_unchecked
        flag_pop_buffer flag_clear)

lemma flag_run:
  "write_ptr rb mod Capacity = write_ptr rb \<Longrightarrow> full_flag_ok rb \<Longrightarrow>
   push_unchecked_has_space Capacity ops rb \<Longrightarrow> full_flag_ok (run Capacity ops rb)"
  by (induction ops arbitrary: rb) (simp_all add: flag_apply_op write_ptr_reduced_apply_op)

text \<open>
  Claim C6, as the specification states it: in every state reachable from the initial
  state through the public operations, \<open>push_unchecked\<close> and \<open>pop_unchecked\<close> among
  them, both cursors lie in \<open>[0, Capacity)\<close> and \<open>is_full\<close> implies that the cursors
  are equal. It fails in two places. \<open>push_unchecked\<close> on a full buffer moves the write
  cursor and leaves the flag set: two pushes fill a buffer of capacity 2, and the
  unchecked push that follows leaves the write cursor at 1, the read cursor at 0 and the
  flag set. And a buffer of capacity 0 has no index in \<open>[0, 0)\<close>: the write cursor of the
  freshly constructed one is 0.
\<close>

theorem cursor_and_flag_invariant_counterexample:
  "\<not> (is_full (run 2 [Push 0, Push 0, PushUnchecked (0::nat)] (RingBuffer_init 2)) \<longrightarrow>
        write_ptr (run 2 [Push 0, Push 0, PushUnchecked (0::nat)] (RingBuffer_init 2))
          = read_ptr (run 2 [Push 0, Push 0, PushUnchecked (0::nat)] (RingBuffer_init 2)))
   \<and> \<not> write_ptr (run 0 [] (RingBuffer_init 0 :: nat RingBuffer)) < 0"
  by (simp add: RingBuffer_init_def push_def push_unchecked_def Let_def)

text \<open>
  Claim C6, amended: in every state reachable from the initial state through the public
  operations, \<open>push_unchecked\<close> and \<open>pop_unchecked\<close> among them, both cursors lie in
  \<open>[0, Capacity)\<close> when the capacity is at least 1; and \<open>is_full\<close> implies that the
  write cursor equals the read cursor when every \<open>push_unchecked\<close> of the run was called
  while the buffer was not full.
\<close>

theorem cursor_and_flag_invariant:
  "(0 < Capacity \<longrightarrow>
      write_ptr (run Capacity ops (RingBuffer_init Capacity)) < Capacity
      \<and> read_ptr (run Capacity ops (RingBuffer_init Capacity)) < Capacity)
   \<and> (push_unchecked_has_space Capacity ops (RingBuffer_init Capacity) \<longrightarrow>
      is_full (run Capacity ops (RingBuffer_init Capacity)) \<longrightarrow>
      write_ptr (run Capacity ops (RingBuffer_init Capacity))
        = read_ptr (run Capacity ops (RingBuffer_init Capacity)))"
proof (intro conjI impI)
  assume "0 < Capacity"
  then have "cursors_in_range Capacity (run Capacity ops (RingBuffer_init Capacity))"
    by (intro cursors_run cursors_init)
  then show "write_ptr (run Capacity ops (RingBuffer_init Capacity)) < Capacity"
    and "read_ptr (run Capacity ops (RingBuffer_init Capacity)) < Capacity"
    by (simp_all add: cursors_in_range_def)
next
  assume space: "push_unchecked_has_space Capacity ops (RingBuffer_init Capacity)"
    and full: "is_full (run Capacity ops (RingBuffer_init Capacity))"
  have w: "write_ptr (RingBuffer_init Capacity) mod Capacity = write_ptr (RingBuffer_init Capacity)"
    by (simp add: RingBuffer_init_def)
  have f: "full_flag_ok (RingBuffer_init Capacity)"
    by (simp add: full_flag_ok_def RingBuffer_init_def)
  have "full_flag_ok (run Capacity ops (RingBuffer_init Capacity))"
    using w f space by (rule flag_run)
  then show "write_ptr (run Capacity ops (RingBuffer_init Capacity))
               = read_ptr (run Capacity ops (RingBuffer_init Capacity))"
    using full by (simp add: full_flag_ok_def)
qed

theorem cursor_and_flag_invariant_witness:
  "0 < (2::nat)
   \<and> push_unchecked_has_space 2 [Push 5, Pop, Push 6, PushUnchecked (7::nat)] (RingBuffer_init 2)
   \<and> run 2 [Push 5, Pop, Push 6, PushUnchecked (7::nat)] (RingBuffer_init 2)
       = \<lparr>buffer = [7, 6], write_ptr = 1, read_ptr = 1, is_full = True\<rparr>
   \<and> write_ptr (run 2 [Push 5, Pop, Push 6, PushUnchecked (7::nat)] (RingBuffer_init 2)) < 2
   \<and> read_ptr (run 2 [Push 5, Pop, Push 6, PushUnchecked (7::nat)] (RingBuffer_init 2)) < 2
   \<and> is_full (run 2 [Push 5, Pop, Push 6, PushUnchecked (7::nat)] (RingBuffer_init 2))
   \<and> write_ptr (run 2 [Push 5, Pop, Push 6, PushUnchecked (7::nat)] (RingBuffer_init 2))
       = read_ptr (run 2 [Push 5, Pop, Push 6, PushUnchecked (7::nat)] (RingBuffer_init 2))"
  using cursor_and_flag_invariant [of 2 "[Push 5, Pop, Push 6, PushUnchecked (7::nat)]"]
  by (simp add: RingBuffer_init_def push_def push_unchecked_def pop_def empty_rb_def
      full_rb_def Let_def replicate_numeral)

subsection \<open>Errors of the checked operations\<close>

lemma push_result: "fst (push Capacity v rb) = (if full_rb rb then Inl Full else Inr ())"
  by (simp add: push_def full_rb_def Let_def)

lemma push_error_unchanged: "full_rb rb \<Longrightarrow> snd (push Capacity v rb) = rb"
  by (simp add: push_def full_rb_def)

lemma push_buffer_result:
  "fst (push_buffer Capacity items rb)
     = (if length items > free_rb Capacity rb then Inl Full else Inr ())"
  by (simp add: push_buffer_def Let_def)

lemma push_buffer_error_unchanged:
  "length items > free_rb Capacity rb \<Longrightarrow> snd (push_buffer Capacity items rb) = rb"
  by (simp add: push_buffer_def)

lemma pop_result:
  "fst (pop Capacity rb) = (if empty_rb rb then Inl Empty else Inr (buffer rb ! read_ptr rb))"
  by (simp add: pop_def Let_def)

lemma pop_error_unchanged: "empty_rb rb \<Longrightarrow> snd (pop Capacity rb) = rb"
  by (simp add: pop_def)

lemma pop_buffer_result:
  "fst (pop_buffer Capacity len mem rb)
     = (if len > size_rb Capacity rb then Inl Empty else Inr ())"
  by (simp add: pop_buffer_def Let_def)

lemma pop_buffer_error_unchanged:
  "len > size_rb Capacity rb \<Longrightarrow> snd (pop_buffer Capacity len mem rb) = (mem, rb)"
  by (simp add: pop_buffer_def)

text \<open>
  Claim C5. Each checked operation returns an error exactly when its guard fails, and
  changes nothing then: \<open>push\<close> returns \<open>Full\<close> if and only if \<open>full()\<close>, \<open>push_buffer\<close>
  returns \<open>Full\<close> if and only if the batch is longer than \<open>free()\<close>, \<open>pop\<close> returns
  \<open>Empty\<close> if and only if \<open>empty()\<close>, \<open>pop_buffer\<close> returns \<open>Empty\<close> if and only if the
  requested length exceeds \<open>size()\<close>; each of them succeeds otherwise; and in every error
  case the storage, both cursors and the full flag (and the destination of \<open>pop_buffer\<close>)
  are as they were before the call.
\<close>

theorem checked_operations_fail_iff_guard:
  "fst (push Capacity v rb1) = (if full_rb rb1 then Inl Full else Inr ())
   \<and> (full_rb rb1 \<longrightarrow> snd (push Capacity v rb1) = rb1)
   \<and> fst (push_buffer Capacity items rb2)
       = (if length items > free_rb Capacity rb2 then Inl Full else Inr ())
   \<and> (length items > free_rb Capacity rb2 \<longrightarrow> snd (push_buffer Capacity items rb2) = rb2)
   \<and> fst (pop Capacity rb3)
       = (if empty_rb rb3 then Inl Empty else Inr (buffer rb3 ! read_ptr rb3))
   \<and> (empty_rb rb3 \<longrightarrow> snd (pop Capacity rb3) = rb3)
   \<and> fst (pop_buffer Capacity len mem rb4)
       = (if len > size_rb Capacity rb4 then Inl Empty else Inr ())
   \<and> (len > size_rb Capacity rb4 \<longrightarrow> snd (pop_buffer Capacity len mem rb4) = (mem, rb4))"
proof (intro conjI impI)
  show "fst (push Capacity v rb1) = (if full_rb rb1 then Inl Full else Inr ())"
    by (rule push_result)
  show "snd (push Capacity v rb1) = rb1" if "full_rb rb1"
    using that by (rule push_error_unchanged)
  show "fst (push_buffer Capacity items rb2)
          = (if length items > free_rb Capacity rb2 then Inl Full else Inr ())"
    by (rule push_buffer_result)
  show "snd (push_buffer Capacity items rb2) = rb2" if "length items > free_rb Capacity rb2"
    using that by (rule push_buffer_error_unchanged)
  show "fst (pop Capacity rb3)
          = (if empty_rb rb3 then Inl Empty else Inr (buffer rb3 ! read_ptr rb3))"
    by (rule pop_result)
  show "snd (pop Capacity rb3) = rb3" if "empty_rb rb3"
    using that by (rule pop_error_unchanged)
  show "fst (pop_buffer Capacity len mem rb4)
          = (if len > size_rb Capacity rb4 then Inl Empty else Inr ())"
    by (rule pop_buffer_result)
  show "snd (pop_buffer Capacity len mem rb4) = (mem, rb4)" if "len > size_rb Capacity rb4"
    using that by (rule pop_buffer_error_unchanged)
qed

theorem checked_operations_fail_iff_guard_witness:
  "full_rb \<lparr>buffer = [1, 2::nat], write_ptr = 1, read_ptr = 1, is_full = True\<rparr>
   \<and> push 2 3 \<lparr>buffer = [1, 2::nat], write_ptr = 1, read_ptr = 1, is_full = True\<rparr>
       = (Inl Full, \<lparr>buffer = [1, 2], write_ptr = 1, read_ptr = 1, is_full = True\<rparr>)
   \<and> length [7, 8::nat] > free_rb 2 \<lparr>buffer = [1, 2], write_ptr = 0, read_ptr = 1, is_full = False\<rparr>
   \<and> push_buffer 2 [7, 8] \<lparr>buffer = [1, 2::nat], write_ptr = 0, read_ptr = 1, is_full = False\<rparr>
       = (Inl Full, \<lparr>buffer = [1, 2], write_ptr = 0, read_ptr = 1, is_full = False\<rparr>)
   \<and> empty_rb \<lparr>buffer = [1, 2::nat], write_ptr = 1, read_ptr = 1, is_full = False\<rparr>
   \<and> pop 2 \<lparr>buffer = [1, 2::nat], write_ptr = 1, read_ptr = 1, is_full = False\<rparr>
       = (Inl Empty, \<lparr>buffer = [1, 2], write_ptr = 1, read_ptr = 1, is_full = False\<rparr>)
   \<and> 2 > size_rb 2 \<lparr>buffer = [1, 2::nat], write_ptr = 0, read_ptr = 1, is_full = False\<rparr>
   \<and> fst (pop_buffer 2 2 (\<lambda>i. 0) \<lparr>buffer = [1, 2::nat], write_ptr = 0, read_ptr = 1, is_full = False\<rparr>)
       = Inl Empty
   \<and> snd (snd (pop_buffer 2 2 (\<lambda>i. 0) \<lparr>buffer = [1, 2::nat], write_ptr = 0, read_ptr = 1, is_full = False\<rparr>))
       = \<lparr>buffer = [1, 2], write_ptr = 0, read_ptr = 1, is_full = False\<rparr>
   \<and> fst (snd (pop_buffer 2 2 (\<lambda>i. 0) \<lparr>buffer = [1, 2::nat], write_ptr = 0, read_ptr = 1, is_full = False\<rparr>)) 0
       = 0"
  using checked_operations_fail_iff_guard
    [of 2 3 "\<lparr>buffer = [1, 2::nat], write_ptr = 1, read_ptr = 1, is_full = True\<rparr>"
        "[7, 8]" "\<lparr>buffer = [1, 2::nat], write_ptr = 0, read_ptr = 1, is_full = False\<rparr>"
        "\<lparr>buffer = [1, 2::nat], write_ptr = 1, read_ptr = 1, is_full = False\<rparr>"
        2 "\<lambda>i. 0" "\<lparr>buffer = [1, 2::nat], write_ptr = 0, read_ptr = 1, is_full = False\<rparr>"]
  by (simp add: full_rb_def empty_rb_def free_rb_def size_rb_def prod_eq_iff)

text \<open>
  Claim C9. For every buffer in the empty state (cursors equal and inside the storage,
  flag clear), \<open>push_buffer\<close> with a batch of length zero returns success, and afterwards
  \<open>full()\<close> is true and \<open>size()\<close> equals \<open>capacity()\<close>, although no element was written
  and both cursors are where they were.
\<close>

theorem push_buffer_of_nothing_fills_empty_buffer:
  assumes "empty_rb rb" and "write_ptr rb < Capacity"
  shows "fst (push_buffer Capacity [] rb) = Inr ()
       \<and> full_rb (snd (push_buffer Capacity [] rb))
       \<and> size_rb Capacity (snd (push_buffer Capacity [] rb))
           = capacity_rb Capacity (snd (push_buffer Capacity [] rb))
       \<and> buffer (snd (push_buffer Capacity [] rb)) = buffer rb
       \<and> write_ptr (snd (push_buffer Capacity [] rb)) = write_ptr rb
       \<and> read_ptr (snd (push_buffer Capacity [] rb)) = read_ptr rb"
  using assms
  by (simp add: push_buffer_def empty_rb_def full_rb_def size_rb_def capacity_rb_def Let_def)

theorem push_buffer_of_nothing_fills_empty_buffer_witness:
  "empty_rb \<lparr>buffer = [0, 0, 0, 0::nat], write_ptr = 2, read_ptr = 2, is_full = False\<rparr>
   \<and> (2::nat) < 4
   \<and> size_rb 4 \<lparr>buffer = [0, 0, 0, 0::nat], write_ptr = 2, read_ptr = 2, is_full = False\<rparr> = 0
   \<and> fst (push_buffer 4 [] \<lparr>buffer = [0, 0, 0, 0::nat], write_ptr = 2, read_ptr = 2, is_full = False\<rparr>)
       = Inr ()
   \<and> full_rb (snd (push_buffer 4 []
        \<lparr>buffer = [0, 0, 0, 0::nat], write_ptr = 2, read_ptr = 2, is_full = False\<rparr>))
   \<and> size_rb 4 (snd (push_buffer 4 []
        \<lparr>buffer = [0, 0, 0, 0::nat], write_ptr = 2, read_ptr = 2, is_full = False\<rparr>)) = 4"
  using push_buffer_of_nothing_fills_empty_buffer
    [of "\<lparr>buffer = [0, 0, 0, 0::nat], write_ptr = 2, read_ptr = 2, is_full = False\<rparr>" 4]
  by (simp add: empty_rb_def size_rb_def capacity_rb_def)

subsection \<open>The queries agree\<close>

lemma empty_iff_size_0:
  "cursors_in_range Capacity rb \<Longrightarrow> empty_rb rb \<longleftrightarrow> size_rb Capacity rb = 0"
  by (auto simp: cursors_in_range_def empty_rb_def size_rb_def)

lemma full_iff_size_capacity:
  "cursors_in_range Capacity rb \<Longrightarrow>
   full_rb rb \<longleftrightarrow> size_rb Capacity rb = capacity_rb Capacity rb"
  by (auto simp: cursors_in_range_def full_rb_def size_rb_def capacity_rb_def)

lemma empty_after_early_return:
  "empty_rb rb \<Longrightarrow> returns_before_storage Capacity op rb \<Longrightarrow>
   empty_rb (apply_op Capacity op rb)"
  by (cases op)
     (simp_all add: push_error_unchanged full_rb_def push_buffer_error_unchanged
        pop_error_unchanged pop_buffer_error_unchanged, simp_all add: empty_rb_def clear_def)

lemma empty_after_early_returns:
  "empty_rb rb \<Longrightarrow> returns_before_storage_run Capacity ops rb \<Longrightarrow>
   empty_rb (run Capacity ops rb)"
  by (induction ops arbitrary: rb) (simp_all add: empty_after_early_return)

lemma size_of_empty: "empty_rb rb \<Longrightarrow> size_rb Capacity rb = 0"
  by (simp add: empty_rb_def size_rb_def)

text \<open>
  Claim C10, as the specification states it: in every state reachable from the initial
  state through the checked operations (push, push_batch, pop, pop_batch, clear),
  \<open>empty()\<close> is true if and only if \<open>size() == 0\<close>, and \<open>full()\<close> is true if and only
  if \<open>size() == capacity()\<close>. The second half fails for the capacity 0: the freshly
  constructed buffer is not full, and its size and its capacity are both 0.
\<close>

theorem full_query_at_capacity_zero_counterexample:
  "\<not> (full_rb (run 0 [] (RingBuffer_init 0 :: nat RingBuffer))
        \<longleftrightarrow> size_rb 0 (run 0 [] (RingBuffer_init 0 :: nat RingBuffer))
              = capacity_rb 0 (run 0 [] (RingBuffer_init 0 :: nat RingBuffer)))"
  by (simp add: RingBuffer_init_def full_rb_def size_rb_def capacity_rb_def)

text \<open>
  Claim C10, amended: in every state reachable from the initial state through the checked
  operations (push, push_batch, pop, pop_batch, clear), \<open>empty()\<close> is true if and only
  if \<open>size() == 0\<close>, and, when the capacity is at least 1, \<open>full()\<close> is true if and
  only if \<open>size() == capacity()\<close>. With the capacity 0 the states reached are those of
  the calls that are defined there, \<open>clear()\<close> and the error returns.
\<close>

theorem empty_full_agree_with_size:
  "(0 < Capacity \<and> list_all checked_op ops \<longrightarrow>
      (empty_rb (run Capacity ops (RingBuffer_init Capacity))
         \<longleftrightarrow> size_rb Capacity (run Capacity ops (RingBuffer_init Capacity)) = 0)
      \<and> (full_rb (run Capacity ops (RingBuffer_init Capacity))
         \<longleftrightarrow> size_rb Capacity (run Capacity ops (RingBuffer_init Capacity))
               = capacity_rb Capacity (run Capacity ops (RingBuffer_init Capacity))))
   \<and> (list_all checked_op ops0 \<and> returns_before_storage_run 0 ops0 (RingBuffer_init 0) \<longrightarrow>
      (empty_rb (run 0 ops0 (RingBuffer_init 0))
         \<longleftrightarrow> size_rb 0 (run 0 ops0 (RingBuffer_init 0)) = 0))"
proof (intro conjI impI)
  assume "0 < Capacity \<and> list_all checked_op ops"
  then have c: "cursors_in_range Capacity (run Capacity ops (RingBuffer_init Capacity))"
    by (intro cursors_run cursors_init) simp
  show "empty_rb (run Capacity ops (RingBuffer_init Capacity))
         \<longleftrightarrow> size_rb Capacity (run Capacity ops (RingBuffer_init Capacity)) = 0"
    using c by (rule empty_iff_size_0)
  show "full_rb (run Capacity ops (RingBuffer_init Capacity))
         \<longleftrightarrow> size_rb Capacity (run Capacity ops (RingBuffer_init Capacity))
               = capacity_rb Capacity (run Capacity ops (RingBuffer_init Capacity))"
    using c by (rule full_iff_size_capacity)
next
  assume a: "list_all checked_op ops0 \<and> returns_before_storage_run 0 ops0 (RingBuffer_init 0)"
  have "empty_rb (RingBuffer_init 0)"
    by (simp add: empty_rb_def RingBuffer_init_def)
  then have e: "empty_rb (run 0 ops0 (RingBuffer_init 0))"
    using a by (intro empty_after_early_returns) simp_all
  then show "empty_rb (run 0 ops0 (RingBuffer_init 0))
         \<longleftrightarrow> size_rb 0 (run 0 ops0 (RingBuffer_init 0)) = 0"
    by (simp add: size_of_empty)
qed

theorem empty_full_agree_with_size_witness:
  "0 < (2::nat)
   \<and> list_all checked_op [Push 5, PushBuffer [6::nat], Pop, Push 7]
   \<and> run 2 [Push 5, PushBuffer [6::nat], Pop, Push 7] (RingBuffer_init 2)
       = \<lparr>buffer = [7, 6], write_ptr = 1, read_ptr = 1, is_full = True\<rparr>
   \<and> (empty_rb (run 2 [Push 5, PushBuffer [6::nat], Pop, Push 7] (RingBuffer_init 2))
        \<longleftrightarrow> size_rb 2 (run 2 [Push 5, PushBuffer [6::nat], Pop, Push 7] (RingBuffer_init 2)) = 0)
   \<and> (full_rb (run 2 [Push 5, PushBuffer [6::nat], Pop, Push 7] (RingBuffer_init 2))
        \<longleftrightarrow> size_rb 2 (run 2 [Push 5, PushBuffer [6::nat], Pop, Push 7] (RingBuffer_init 2))
              = capacity_rb 2
                  (run 2 [Push 5, PushBuffer [6::nat], Pop, Push 7] (RingBuffer_init 2)))
   \<and> list_all checked_op [Pop, Clear, PushBuffer [1::nat], PopBuffer 1 (\<lambda>i. 0)]
   \<and> returns_before_storage_run 0 [Pop, Clear, PushBuffer [1::nat], PopBuffer 1 (\<lambda>i. 0)]
         (RingBuffer_init 0)
   \<and> run 0 [Pop, Clear, PushBuffer [1::nat], PopBuffer 1 (\<lambda>i. 0)] (RingBuffer_init 0)
       = \<lparr>buffer = [], write_ptr = 0, read_ptr = 0, is_full = False\<rparr>
   \<and> (empty_rb (run 0 [Pop, Clear, PushBuffer [1::nat], PopBuffer 1 (\<lambda>i. 0)] (RingBuffer_init 0))
        \<longleftrightarrow> size_rb 0
              (run 0 [Pop, Clear, PushBuffer [1::nat], PopBuffer 1 (\<lambda>i. 0)] (RingBuffer_init 0))
              = 0)"
  using empty_full_agree_with_size [of 2 "[Push 5, PushBuffer [6::nat], Pop, Push 7]"
        "[Pop, Clear, PushBuffer [1::nat], PopBuffer 1 (\<lambda>i. 0)]"]
  by (simp add: RingBuffer_init_def push_def push_buffer_def pop_def pop_buffer_def clear_def
      empty_rb_def full_rb_def free_rb_def size_rb_def capacity_rb_def Let_def replicate_numeral)

subsection \<open>Batches\<close>

text \<open>A batch of at least one element that fits is accepted and grows \<open>size()\<close> by its length.\<close>

lemma push_buffer_size:
  assumes "cursors_in_range Capacity rb" and "0 < length items"
    and "length items \<le> free_rb Capacity rb"
  shows "fst (push_buffer Capacity items rb) = Inr ()
       \<and> write_ptr (snd (push_buffer Capacity items rb))
           = (write_ptr rb + length items) mod Capacity
       \<and> size_rb Capacity (snd (push_buffer Capacity items rb))
           = size_rb Capacity rb + length items"
  using assms
  by (auto simp: cursors_in_range_def push_buffer_def free_rb_def size_rb_def Let_def mod_wrap
      simp del: length_greater_0_conv
      split: if_splits)

text \<open>
  Claim C3. For every buffer state and every batch of length \<open>L\<close> with \<open>L <= free()\<close>,
  \<open>push_buffer\<close> succeeds, stores the items from the write cursor on, advances the write
  cursor by \<open>L\<close> modulo \<open>Capacity\<close>, and afterwards \<open>size()\<close> is the \<open>size()\<close> before the
  call plus \<open>L\<close>. The code does so for \<open>L >= 1\<close> (\<open>push_buffer_size\<close>, for the
  result, the write cursor and the size), and not for the batch of length 0 on an empty buffer:
  the cursors are equal before and after, and the code sets the full flag whenever they
  are equal after the copy. On a fresh buffer of capacity 4 the call succeeds and
  \<open>size()\<close> goes from 0 to 4, not to \<open>0 + 0\<close>.
\<close>

theorem push_buffer_of_nothing_breaks_size:
  "length ([]::nat list) \<le> free_rb 4 (RingBuffer_init 4 :: nat RingBuffer)
   \<and> size_rb 4 (RingBuffer_init 4 :: nat RingBuffer) = 0
   \<and> push_buffer 4 [] (RingBuffer_init 4 :: nat RingBuffer)
       = (Inr (), \<lparr>buffer = [0, 0, 0, 0], write_ptr = 0, read_ptr = 0, is_full = True\<rparr>)
   \<and> size_rb 4 (snd (push_buffer 4 [] (RingBuffer_init 4 :: nat RingBuffer))) = 4
   \<and> size_rb 4 (snd (push_buffer 4 [] (RingBuffer_init 4 :: nat RingBuffer)))
       \<noteq> size_rb 4 (RingBuffer_init 4 :: nat RingBuffer) + length ([]::nat list)"
  by (simp add: push_buffer_def RingBuffer_init_def free_rb_def size_rb_def Let_def
      replicate_numeral)

text \<open>
  Claim C2. For every buffer state and every destination of length \<open>L\<close> with
  \<open>L <= size()\<close>, \<open>pop_buffer\<close> succeeds and writes exactly the \<open>L\<close> oldest elements to
  the positions \<open>0..L-1\<close> of the destination, and no position beyond \<open>L-1\<close>. The code
  does not do this when the request does not reach the physical end of the storage: the
  branch without wrap-around copies \<open>Capacity - read_ptr\<close> elements, all of the storage
  from the read cursor to its end, whatever \<open>L\<close> is. A buffer of capacity 4 holds 10 and
  20 at the read cursor 0; popping into a destination of length 1, in memory that holds
  99 everywhere, succeeds and writes the offsets 0 to 3: offset 1 holds 20 afterwards.
\<close>

theorem pop_buffer_writes_past_destination:
  "run 4 [Push 10, Push 20] (RingBuffer_init 4)
     = \<lparr>buffer = [10, 20, 0, 0::nat], write_ptr = 2, read_ptr = 0, is_full = False\<rparr>
   \<and> size_rb 4 \<lparr>buffer = [10, 20, 0, 0::nat], write_ptr = 2, read_ptr = 0, is_full = False\<rparr> = 2
   \<and> fst (pop_buffer 4 1 (\<lambda>i. 99)
        \<lparr>buffer = [10, 20, 0, 0::nat], write_ptr = 2, read_ptr = 0, is_full = False\<rparr>) = Inr ()
   \<and> map (fst (snd (pop_buffer 4 1 (\<lambda>i. 99)
        \<lparr>buffer = [10, 20, 0, 0::nat], write_ptr = 2, read_ptr = 0, is_full = False\<rparr>)))
        [0, 1, 2, 3, 4] = [10, 20, 0, 0, 99]"
  by (simp add: pop_buffer_def size_rb_def RingBuffer_init_def push_def Let_def
      replicate_numeral)

subsection \<open>First in, first out\<close>

lemma push_fields:
  "\<not> full_rb rb \<Longrightarrow>
   buffer (snd (push Capacity v rb)) = (buffer rb)[write_ptr rb := v]
   \<and> read_ptr (snd (push Capacity v rb)) = read_ptr rb"
  by (simp add: push_def full_rb_def Let_def)

lemma size_push:
  "cursors_in_range Capacity rb \<Longrightarrow> \<not> full_rb rb \<Longrightarrow>
   size_rb Capacity (snd (push Capacity v rb)) = Suc (size_rb Capacity rb)"
  by (auto simp: cursors_in_range_def full_rb_def push_def size_rb_def Let_def mod_wrap)

lemma index_past_live:
  "cursors_in_range Capacity rb \<Longrightarrow> \<not> full_rb rb \<Longrightarrow>
   (read_ptr rb + size_rb Capacity rb) mod Capacity = write_ptr rb"
  by (auto simp: cursors_in_range_def full_rb_def size_rb_def mod_wrap)

lemma index_of_live:
  "cursors_in_range Capacity rb \<Longrightarrow> \<not> full_rb rb \<Longrightarrow> i < size_rb Capacity rb \<Longrightarrow>
   (read_ptr rb + i) mod Capacity \<noteq> write_ptr rb"
  by (auto simp: cursors_in_range_def full_rb_def size_rb_def mod_wrap split: if_splits)

lemma contents_push:
  assumes "cursors_in_range Capacity rb" and "\<not> full_rb rb"
  shows "contents Capacity (snd (push Capacity v rb)) = contents Capacity rb @ [v]"
proof -
  let ?n = "size_rb Capacity rb"
  let ?b = "(buffer rb)[write_ptr rb := v]"
  have w: "write_ptr rb < length (buffer rb)"
    using assms(1) by (simp add: cursors_in_range_def)
  have live: "map (\<lambda>i. ?b ! ((read_ptr rb + i) mod Capacity)) [0..<?n]
                = map (\<lambda>i. buffer rb ! ((read_ptr rb + i) mod Capacity)) [0..<?n]"
    using index_of_live [OF assms, THEN not_sym] by (intro map_cong) simp_all
  have new: "?b ! ((read_ptr rb + ?n) mod Capacity) = v"
    using index_past_live [OF assms] w by simp
  show ?thesis
    using live new
    by (simp add: contents_def size_push [OF assms] push_fields [OF assms(2)])
qed

lemma pop_fields:
  "\<not> empty_rb rb \<Longrightarrow>
   buffer (snd (pop Capacity rb)) = buffer rb
   \<and> read_ptr (snd (pop Capacity rb)) = Suc (read_ptr rb) mod Capacity"
  by (simp add: pop_def Let_def)

lemma size_pop:
  "cursors_in_range Capacity rb \<Longrightarrow> full_flag_ok rb \<Longrightarrow> \<not> empty_rb rb \<Longrightarrow>
   size_rb Capacity rb = Suc (size_rb Capacity (snd (pop Capacity rb)))"
  by (auto simp: cursors_in_range_def full_flag_ok_def empty_rb_def pop_def size_rb_def
      Let_def mod_wrap)

lemma contents_pop:
  assumes "cursors_in_range Capacity rb" and "full_flag_ok rb" and "\<not> empty_rb rb"
  shows "contents Capacity rb
           = buffer rb ! read_ptr rb # contents Capacity (snd (pop Capacity rb))"
proof -
  let ?m = "size_rb Capacity (snd (pop Capacity rb))"
  have r: "read_ptr rb mod Capacity = read_ptr rb"
    using assms(1) by (simp add: cursors_in_range_def)
  have shift: "(Suc (read_ptr rb) mod Capacity + i) mod Capacity
                 = (read_ptr rb + Suc i) mod Capacity" for i
    by (simp add: mod_add_left_eq)
  have "contents Capacity rb
          = map (\<lambda>i. buffer rb ! ((read_ptr rb + i) mod Capacity)) [0..<Suc ?m]"
    by (simp add: contents_def size_pop [OF assms])
  also have "\<dots> = buffer rb ! read_ptr rb
                    # map (\<lambda>i. buffer rb ! ((read_ptr rb + Suc i) mod Capacity)) [0..<?m]"
    by (simp add: upt_conv_Cons map_Suc_upt [symmetric] r del: upt_Suc)
  also have "\<dots> = buffer rb ! read_ptr rb # contents Capacity (snd (pop Capacity rb))"
    by (simp add: contents_def pop_fields [OF assms(3)] shift)
  finally show ?thesis .
qed

lemma length_contents: "length (contents Capacity rb) = size_rb Capacity rb"
  by (simp add: contents_def)

lemma contents_init: "contents Capacity (RingBuffer_init Capacity) = []"
  by (simp add: contents_def size_rb_def RingBuffer_init_def)

lemma push_pop_run:
  "cursors_in_range Capacity rb \<Longrightarrow> full_flag_ok rb \<Longrightarrow> push_pop_sequence Capacity ops rb \<Longrightarrow>
   list_all succeeded (outcomes Capacity ops rb)
   \<and> contents Capacity rb @ pushed ops
       = popped (outcomes Capacity ops rb) @ contents Capacity (run Capacity ops rb)
   \<and> length (popped (outcomes Capacity ops rb)) = pops ops"
proof (induction ops arbitrary: rb)
  case Nil
  then show ?case by simp
next
  case (Cons op ops)
  have ok: "push_pop_allowed op rb"
    and rest: "push_pop_sequence Capacity ops (apply_op Capacity op rb)"
    using Cons.prems(3) by simp_all
  have c: "cursors_in_range Capacity (apply_op Capacity op rb)"
    using Cons.prems(1) by (rule cursors_apply_op)
  show ?case
  proof (cases op)
    case (Push v)
    then have nf: "\<not> full_rb rb" using ok by simp
    have f: "full_flag_ok (apply_op Capacity op rb)"
      using Cons.prems(2) Push by (simp add: flag_push)
    show ?thesis
      using Cons.IH [OF c f rest] Push nf contents_push [OF Cons.prems(1) nf, of v]
      by (simp add: push_result)
  next
    case Pop
    then have ne: "\<not> empty_rb rb" using ok by simp
    have f: "full_flag_ok (apply_op Capacity op rb)"
      using Cons.prems(2) Pop by (simp add: flag_pop)
    show ?thesis
      using Cons.IH [OF c f rest] Pop ne contents_pop [OF Cons.prems(1,2) ne]
      by (simp add: pop_result)
  qed (use ok in simp_all)
qed

text \<open>
  Claim C4. For every sequence of single-element pushes and pops that starts from a
  freshly constructed buffer and issues no push while the buffer is full and no pop
  while it is empty, every operation succeeds, \<open>size()\<close> after the sequence is the
  number of pushes minus the number of pops, and the pops return the pushed values in
  the order in which they were pushed.
\<close>

theorem push_pop_fifo:
  assumes "0 < Capacity"
    and "push_pop_sequence Capacity ops (RingBuffer_init Capacity)"
  shows "list_all succeeded (outcomes Capacity ops (RingBuffer_init Capacity))
       \<and> int (size_rb Capacity (run Capacity ops (RingBuffer_init Capacity)))
           = int (length (pushed ops)) - int (pops ops)
       \<and> popped (outcomes Capacity ops (RingBuffer_init Capacity))
           = take (pops ops) (pushed ops)"
proof -
  let ?rb = "RingBuffer_init Capacity :: 'a RingBuffer"
  have c: "cursors_in_range Capacity ?rb"
    using assms(1) by (rule cursors_init)
  have f: "full_flag_ok ?rb"
    by (simp add: full_flag_ok_def RingBuffer_init_def)
  note run = push_pop_run [OF c f assms(2)]
  have eq: "pushed ops = popped (outcomes Capacity ops ?rb) @ contents Capacity (run Capacity ops ?rb)"
    using run by (simp add: contents_init)
  have len: "length (popped (outcomes Capacity ops ?rb)) = pops ops"
    using run by simp
  have "length (pushed ops) = pops ops + size_rb Capacity (run Capacity ops ?rb)"
    using arg_cong [OF eq, of length] len by (simp add: length_contents)
  moreover have "take (pops ops) (pushed ops) = popped (outcomes Capacity ops ?rb)"
    using eq len by (metis append_eq_conv_conj)
  ultimately show ?thesis
    using run by simp
qed

theorem push_pop_fifo_witness:
  "0 < (2::nat)
   \<and> push_pop_sequence 2 [Push (1::nat), Push 2, Pop, Push 3, Pop] (RingBuffer_init 2)
   \<and> outcomes 2 [Push (1::nat), Push 2, Pop, Push 3, Pop] (RingBuffer_init 2)
       = [Done, Done, Popped 1, Done, Popped 2]
   \<and> list_all succeeded (outcomes 2 [Push (1::nat), Push 2, Pop, Push 3, Pop] (RingBuffer_init 2))
   \<and> int (size_rb 2 (run 2 [Push (1::nat), Push 2, Pop, Push 3, Pop] (RingBuffer_init 2)))
       = int (length (pushed [Push (1::nat), Push 2, Pop, Push 3, Pop]))
         - int (pops [Push (1::nat), Push 2, Pop, Push 3, Pop])
   \<and> popped (outcomes 2 [Push (1::nat), Push 2, Pop, Push 3, Pop] (RingBuffer_init 2))
       = take (pops [Push (1::nat), Push 2, Pop, Push 3, Pop])
           (pushed [Push (1::nat), Push 2, Pop, Push 3, Pop])"
  using push_pop_fifo [of 2 "[Push (1::nat), Push 2, Pop, Push 3, Pop]"]
  by (simp add: RingBuffer_init_def push_def pop_def empty_rb_def full_rb_def Let_def
      replicate_numeral)

section \<open>Properties of the iterator\<close>

lemma to_ssize_t_small: "n < 2 ^ 63 \<Longrightarrow> to_ssize_t n = int n"
  by (simp add: to_ssize_t_def)

lemma to_size_t_small: "0 \<le> i \<Longrightarrow> i < 2 ^ 64 \<Longrightarrow> to_size_t i = nat i"
  by (simp add: to_size_t_def)

lemma sdiv_nonneg: "0 \<le> a \<Longrightarrow> 0 < b \<Longrightarrow> (a::int) sdiv b = a div b"
  by (simp add: signed_divide_int_def sgn_if)

lemma smod_nonneg: "0 \<le> a \<Longrightarrow> 0 < b \<Longrightarrow> (a::int) smod b = a mod b"
  by (simp add: signed_modulo_int_def sgn_if)


lemma cycle_round_trip:
  "- (2 ^ 63) \<le> c \<Longrightarrow> c < 2 ^ 63 \<Longrightarrow> to_ssize_t (to_size_t c) = c"
proof (cases "0 \<le> c")
  case True
  assume "c < 2 ^ 63"
  with True show ?thesis by (simp add: to_size_t_def to_ssize_t_def)
next
  case False
  assume lo: "- (2 ^ 63) \<le> c"
  have "c mod 2 ^ 64 = (c + 2 ^ 64) mod 2 ^ 64"
    by simp
  also have "\<dots> = c + 2 ^ 64"
    using False lo by (intro mod_pos_pos_trivial) simp_all
  finally have m: "c mod 2 ^ 64 = c + 2 ^ 64" .
  show ?thesis
    using False lo m by (simp add: to_size_t_def to_ssize_t_def)
qed


lemma plus_forward:
  assumes "ptr it < length (data it)" and "length (data it) < 2 ^ 63"
    and "0 \<le> int (ptr it) + d"
    and "- (2 ^ 63) \<le> cycle it + (int (ptr it) + d) div int (length (data it))"
    and "cycle it + (int (ptr it) + d) div int (length (data it)) < 2 ^ 63"
  shows "iterator_plus it d =
           \<lparr>data = data it,
            ptr = nat ((int (ptr it) + d) mod int (length (data it))),
            cycle = cycle it + (int (ptr it) + d) div int (length (data it))\<rparr>"
proof -
  let ?n = "int (length (data it))"
  let ?p = "int (ptr it) + d"
  have n: "to_ssize_t (length (data it)) = ?n" and p: "to_ssize_t (ptr it) = int (ptr it)"
    using assms(1,2) by (simp_all add: to_ssize_t_small)
  have npos: "0 < ?n" using assms(1) by auto
  have "?n < int (2 ^ 63)"
    using assms(2) by (simp only: of_nat_less_iff)
  then have nsmall: "?n < 2 ^ 63"
    by simp
  have m: "0 \<le> ?p mod ?n"
    using npos by (rule pos_mod_sign)
  have "?p mod ?n < ?n"
    using npos by (rule pos_mod_bound)
  also have "\<dots> < 2 ^ 63"
    by (rule nsmall)
  also have "(2::int) ^ 63 < 2 ^ 64"
    by simp
  finally have m2: "?p mod ?n < 2 ^ 64" .
  have sz: "to_size_t (?p mod ?n) = nat (?p mod ?n)"
    using m m2 by (rule to_size_t_small)
  have cy: "to_ssize_t (to_size_t (cycle it + ?p div ?n)) = cycle it + ?p div ?n"
    using assms(4,5) by (rule cycle_round_trip)
  have m': "(?p mod ?n < 0) = False"
    using m by (simp only: not_less [symmetric] simp_thms)
  show ?thesis
  proof (cases "?n \<le> ?p")
    case True
    then show ?thesis
      using assms(3) npos sz cy
      by (simp add: iterator_plus_def Iterator_new_def n p Let_def sdiv_nonneg smod_nonneg m')
  next
    case False
    then have small: "?p mod ?n = ?p" "?p div ?n = 0"
      using assms(3) by simp_all
    show ?thesis
      using False assms(3) sz cy
      by (simp add: iterator_plus_def Iterator_new_def n p Let_def small)
  qed
qed

lemma plus_forward_position:
  assumes "ptr it < length (data it)" and "length (data it) < 2 ^ 63"
    and "0 \<le> int (ptr it) + d"
    and "- (2 ^ 63) \<le> cycle it + (int (ptr it) + d) div int (length (data it))"
    and "cycle it + (int (ptr it) + d) div int (length (data it)) < 2 ^ 63"
  shows "ptr (iterator_plus it d) < length (data it)
       \<and> position (length (data it)) (iterator_plus it d) = position (length (data it)) it + d"
proof -
  let ?n = "int (length (data it))"
  let ?p = "int (ptr it) + d"
  have npos: "0 < ?n" using assms(1) by auto
  have "nat (?p mod ?n) < length (data it)"
    using npos pos_mod_bound [of ?n ?p] by linarith
  moreover have "?p mod ?n + (cycle it + ?p div ?n) * ?n = ?p + cycle it * ?n"
    by (simp add: algebra_simps)
  ultimately show ?thesis
    using npos by (simp add: plus_forward [OF assms] position_def)
qed


lemma plus_forward_nat:
  assumes "ptr it < length (data it)" and "length (data it) < 2 ^ 63"
    and "- (2 ^ 63) \<le> cycle it + int ((ptr it + k) div length (data it))"
    and "cycle it + int ((ptr it + k) div length (data it)) < 2 ^ 63"
  shows "iterator_plus it (int k) =
           \<lparr>data = data it,
            ptr = (ptr it + k) mod length (data it),
            cycle = cycle it + int ((ptr it + k) div length (data it))\<rparr>"
proof -
  have d: "(int (ptr it) + int k) div int (length (data it))
             = int ((ptr it + k) div length (data it))"
    by (simp add: zdiv_int)
  have m: "nat ((int (ptr it) + int k) mod int (length (data it)))
             = (ptr it + k) mod length (data it)"
    by (simp add: nat_mod_distrib nat_add_distrib)
  have "iterator_plus it (int k) =
           \<lparr>data = data it,
            ptr = nat ((int (ptr it) + int k) mod int (length (data it))),
            cycle = cycle it + (int (ptr it) + int k) div int (length (data it))\<rparr>"
  proof (rule plus_forward [OF assms(1,2)])
    show "0 \<le> int (ptr it) + int k" by simp
    show "- (2 ^ 63) \<le> cycle it + (int (ptr it) + int k) div int (length (data it))"
      using assms(3) by (simp only: d)
    show "cycle it + (int (ptr it) + int k) div int (length (data it)) < 2 ^ 63"
      using assms(4) by (simp only: d)
  qed
  then show ?thesis
    by (simp only: d m)
qed

lemma pre_increment_step:
  assumes "ptr it < length (data it)" and "length (data it) < 2 ^ 64"
  shows "pre_increment it =
           it\<lparr>ptr := Suc (ptr it) mod length (data it),
              cycle := cycle it + (if Suc (ptr it) = length (data it) then 1 else 0)\<rparr>"
proof -
  let ?N = "length (data it)"
  have npos: "0 < ?N" using assms(1) by auto
  have e: "?N + 2 ^ 64 - 1 = (?N - 1) + 2 ^ 64"
    using npos by simp
  have "(?N + 2 ^ 64 - 1) mod 2 ^ 64 = ((?N - 1) + 2 ^ 64) mod 2 ^ 64"
    by (simp only: e)
  also have "\<dots> = (?N - 1) mod 2 ^ 64"
    by (rule mod_add_self2)
  also have "\<dots> = ?N - 1"
    using assms(2) by (intro mod_less) linarith
  finally have last: "(?N + 2 ^ 64 - 1) mod 2 ^ 64 = ?N - 1" .
  show ?thesis
  proof (cases "Suc (ptr it) = ?N")
    case True
    then have "?N - 1 \<le> ptr it" by linarith
    then show ?thesis
      using True unfolding pre_increment_def last by simp
  next
    case False
    then have "\<not> ?N - 1 \<le> ptr it" and "Suc (ptr it) mod ?N = Suc (ptr it)"
      using assms(1) by simp_all
    then show ?thesis
      using False unfolding pre_increment_def last by simp
  qed
qed

lemma pre_increment_funpow:
  assumes "ptr it < length (data it)" and "length (data it) < 2 ^ 64"
  shows "(pre_increment ^^ n) it =
           it\<lparr>ptr := (ptr it + n) mod length (data it),
              cycle := cycle it + int ((ptr it + n) div length (data it))\<rparr>"
proof (induction n)
  case 0
  then show ?case using assms(1) by simp
next
  case (Suc n)
  let ?N = "length (data it)"
  let ?it = "it\<lparr>ptr := (ptr it + n) mod ?N, cycle := cycle it + int ((ptr it + n) div ?N)\<rparr>"
  have npos: "0 < ?N" using assms(1) by auto
  have p: "ptr ?it < length (data ?it)" and l: "length (data ?it) < 2 ^ 64"
    using npos assms(2) by simp_all
  have "(pre_increment ^^ Suc n) it = pre_increment ?it"
    by (simp only: funpow.simps o_apply Suc.IH)
  also have "\<dots> = ?it\<lparr>ptr := Suc (ptr ?it) mod length (data ?it),
       cycle := cycle ?it + (if Suc (ptr ?it) = length (data ?it) then 1 else 0)\<rparr>"
    using p l by (rule pre_increment_step)
  also have "\<dots> = it\<lparr>ptr := (ptr it + Suc n) mod ?N,
       cycle := cycle it + int ((ptr it + Suc n) div ?N)\<rparr>"
    by (simp add: mod_Suc div_Suc)
  finally show ?case .
qed

text \<open>
  Claim C1. For every iterator over storage of size \<open>N\<close> with index \<open>ptr\<close> in \<open>[0, N)\<close>
  and every signed offset \<open>d\<close>, each offset operation (\<open>+=\<close>, \<open>-=\<close>, \<open>+\<close> in both
  argument orders, binary \<open>-\<close>) gives an index \<open>ptr'\<close> in \<open>[0, N)\<close> and a cycle with
  \<open>ptr' + cycle' * N = ptr + cycle * N + d\<close> (\<open>d\<close> negated for the subtractions). The
  code does this when \<open>ptr + d\<close> is not negative (\<open>plus_forward_position\<close> shows it for
  the binary \<open>+\<close>), and not
  otherwise: the branch for a negative index adds the truncated quotient to the cycle,
  one more than the floor unless the division is exact, and \<open>N\<close> plus the remainder,
  which is \<open>N\<close> itself when it is exact. From \<open>begin()\<close> of a fresh buffer of capacity
  4, all five operations with the offset \<open>-1\<close> give index 3 in cycle 0, position 3 and
  not \<open>-1\<close>, where the pre-decrement gives index 3 in cycle \<open>-1\<close>; and \<open>+= -4\<close> gives
  the index 4, outside the storage.
\<close>

theorem negative_offset_loses_cycle:
  "begin_rb (RingBuffer_init 4 :: nat RingBuffer) = \<lparr>data = [0, 0, 0, 0], ptr = 0, cycle = 0\<rparr>
   \<and> plus_assign \<lparr>data = [0, 0, 0, 0::nat], ptr = 0, cycle = 0\<rparr> (- 1)
       = \<lparr>data = [0, 0, 0, 0], ptr = 3, cycle = 0\<rparr>
   \<and> minus_assign \<lparr>data = [0, 0, 0, 0::nat], ptr = 0, cycle = 0\<rparr> 1
       = \<lparr>data = [0, 0, 0, 0], ptr = 3, cycle = 0\<rparr>
   \<and> iterator_plus \<lparr>data = [0, 0, 0, 0::nat], ptr = 0, cycle = 0\<rparr> (- 1)
       = \<lparr>data = [0, 0, 0, 0], ptr = 3, cycle = 0\<rparr>
   \<and> offset_plus_iterator (- 1) \<lparr>data = [0, 0, 0, 0::nat], ptr = 0, cycle = 0\<rparr>
       = \<lparr>data = [0, 0, 0, 0], ptr = 3, cycle = 0\<rparr>
   \<and> iterator_minus \<lparr>data = [0, 0, 0, 0::nat], ptr = 0, cycle = 0\<rparr> 1
       = \<lparr>data = [0, 0, 0, 0], ptr = 3, cycle = 0\<rparr>
   \<and> position 4 \<lparr>data = [0, 0, 0, 0::nat], ptr = 3, cycle = 0\<rparr> = 3
   \<and> position 4 \<lparr>data = [0, 0, 0, 0::nat], ptr = 0, cycle = 0\<rparr> + (- 1) = - 1
   \<and> pre_decrement \<lparr>data = [0, 0, 0, 0::nat], ptr = 0, cycle = 0\<rparr>
       = \<lparr>data = [0, 0, 0, 0], ptr = 3, cycle = - 1\<rparr>
   \<and> plus_assign \<lparr>data = [0, 0, 0, 0::nat], ptr = 0, cycle = 0\<rparr> (- 4)
       = \<lparr>data = [0, 0, 0, 0], ptr = 4, cycle = - 1\<rparr>"
  by (simp add: begin_rb_def RingBuffer_init_def Iterator_new_def plus_assign_def minus_assign_def
      iterator_plus_def offset_plus_iterator_def iterator_minus_def pre_decrement_def
      position_def to_ssize_t_def to_size_t_def signed_divide_int_def signed_modulo_int_def
      Let_def replicate_numeral)

lemma begin_rb_eq: "begin_rb rb = \<lparr>data = buffer rb, ptr = read_ptr rb, cycle = 0\<rparr>"
  by (simp add: begin_rb_def Iterator_new_def to_ssize_t_def)

lemma end_rb_full:
  "full_rb rb \<Longrightarrow> end_rb rb = \<lparr>sentinel_ptr = write_ptr rb, sentinel_cycle = 1\<rparr>"
  by (simp add: end_rb_def Sentinel_new_def to_ssize_t_def)

lemma logical_value:
  assumes "contents Capacity rb = [0..<Capacity]" and "k < Capacity"
  shows "buffer rb ! ((read_ptr rb + k) mod Capacity) = k"
proof -
  have n: "size_rb Capacity rb = Capacity"
    using arg_cong [OF assms(1), of length] by (simp add: contents_def)
  have "contents Capacity rb ! k = k"
    using assms by simp
  then show ?thesis
    using assms(2) by (simp add: contents_def n)
qed

text \<open>
  Claim C8. For a full buffer of capacity 64 whose elements in logical (first in, first
  out) order are the values 0 to 63, and for every \<open>k\<close> in \<open>[0, 64)\<close>: \<open>begin()[k]\<close> is
  \<open>k\<close>; \<open>begin() + k\<close> (and \<open>k + begin()\<close>) dereferences to \<open>k\<close>; \<open>begin() + 64\<close>
  equals \<open>end()\<close>; \<open>end() - begin()\<close> is 64; and 64 pre-increments of \<open>begin()\<close> give
  an iterator equal to \<open>end()\<close>. This holds wherever the read cursor is, also when the
  live data wraps around the physical end of the storage.
\<close>

theorem full_buffer_iteration:
  assumes "cursors_in_range 64 rb" and "full_rb rb" and "write_ptr rb = read_ptr rb"
    and "contents 64 rb = [0..<64]"
  shows "(\<forall>k<64. subscript (begin_rb rb) k = Some k
                 \<and> deref (iterator_plus (begin_rb rb) (int k)) = Some k
                 \<and> deref (offset_plus_iterator (int k) (begin_rb rb)) = Some k)
       \<and> eq_sentinel (iterator_plus (begin_rb rb) 64) (end_rb rb)
       \<and> sentinel_minus (end_rb rb) (begin_rb rb) = 64
       \<and> eq_sentinel ((pre_increment ^^ 64) (begin_rb rb)) (end_rb rb)"
proof -
  let ?b = "\<lparr>data = buffer rb, ptr = read_ptr rb, cycle = 0\<rparr>"
  have len: "length (buffer rb) = 64" and r: "read_ptr rb < 64"
    using assms(1) by (simp_all add: cursors_in_range_def)
  have e: "end_rb rb = \<lparr>sentinel_ptr = read_ptr rb, sentinel_cycle = 1\<rparr>"
    using assms(2,3) by (simp add: end_rb_full)
  have p: "ptr ?b < length (data ?b)" and l: "length (data ?b) < 2 ^ 63"
    using len r by simp_all
  have plus: "iterator_plus ?b (int k) =
          \<lparr>data = buffer rb, ptr = (read_ptr rb + k) mod 64,
           cycle = int ((read_ptr rb + k) div 64)\<rparr>" if "k \<le> 64" for k
  proof -
    have "(read_ptr rb + k) div 64 \<le> 1"
      using r that by simp
    then have "- (2 ^ 63) \<le> cycle ?b + int ((ptr ?b + k) div length (data ?b))"
      and "cycle ?b + int ((ptr ?b + k) div length (data ?b)) < 2 ^ 63"
      by (simp_all add: len)
    from plus_forward_nat [OF p l this] show ?thesis
      by (simp add: len)
  qed
  have elems: "subscript (begin_rb rb) k = Some k
                 \<and> deref (iterator_plus (begin_rb rb) (int k)) = Some k
                 \<and> deref (offset_plus_iterator (int k) (begin_rb rb)) = Some k"
    if k: "k < 64" for k
  proof -
    have v: "buffer rb ! ((read_ptr rb + k) mod 64) = k"
      using assms(4) k by (rule logical_value)
    have "(read_ptr rb + k) mod 2 ^ 64 = read_ptr rb + k"
      using r k by simp
    then have "subscript (begin_rb rb) k = Some k"
      using v by (simp add: begin_rb_eq subscript_def len)
    moreover have "deref (iterator_plus (begin_rb rb) (int k)) = Some k"
      using v k by (simp add: begin_rb_eq plus deref_def len)
    ultimately show ?thesis
      by (simp add: offset_plus_iterator_def)
  qed
  have "iterator_plus ?b (int 64) = \<lparr>data = buffer rb, ptr = read_ptr rb, cycle = 1\<rparr>"
    using r by (simp add: plus del: of_nat_numeral)
  then have adv: "eq_sentinel (iterator_plus (begin_rb rb) 64) (end_rb rb)"
    by (simp add: begin_rb_eq e eq_sentinel_def)
  have dist: "sentinel_minus (end_rb rb) (begin_rb rb) = 64"
    using r by (simp add: begin_rb_eq e sentinel_minus_def len to_ssize_t_small)
  have "(pre_increment ^^ 64) ?b = \<lparr>data = buffer rb, ptr = read_ptr rb, cycle = 1\<rparr>"
    using r pre_increment_funpow [of ?b 64] by (simp add: len)
  then have inc: "eq_sentinel ((pre_increment ^^ 64) (begin_rb rb)) (end_rb rb)"
    by (simp add: begin_rb_eq e eq_sentinel_def)
  from elems adv dist inc show ?thesis
    by blast
qed

lemma contents_wrapped_full_buffer: "contents 64 wrapped_full_buffer = [0..<64]"
proof (rule nth_equalityI)
  show "length (contents 64 wrapped_full_buffer) = length [0..<64]"
    by (simp add: contents_def size_rb_def wrapped_full_buffer_def del: upt_rec_numeral)
next
  fix i
  assume "i < length (contents 64 wrapped_full_buffer)"
  then have i: "i < 64"
    by (simp add: contents_def size_rb_def wrapped_full_buffer_def del: upt_rec_numeral)
  have "([24..<64] @ [0..<24]) ! ((40 + i) mod 64) = i"
    using i by (auto simp add: nth_append mod_wrap simp del: upt_rec_numeral)
  then show "contents 64 wrapped_full_buffer ! i = [0..<64] ! i"
    using i by (simp add: contents_def size_rb_def wrapped_full_buffer_def del: upt_rec_numeral)
qed

theorem full_buffer_iteration_witness:
  "cursors_in_range 64 wrapped_full_buffer \<and> full_rb wrapped_full_buffer
   \<and> write_ptr wrapped_full_buffer = read_ptr wrapped_full_buffer
   \<and> contents 64 wrapped_full_buffer = [0..<64]
   \<and> subscript (begin_rb wrapped_full_buffer) 30 = Some 30
   \<and> deref (iterator_plus (begin_rb wrapped_full_buffer) (int 30)) = Some 30
   \<and> deref (offset_plus_iterator (int 30) (begin_rb wrapped_full_buffer)) = Some 30
   \<and> eq_sentinel (iterator_plus (begin_rb wrapped_full_buffer) 64) (end_rb wrapped_full_buffer)
   \<and> sentinel_minus (end_rb wrapped_full_buffer) (begin_rb wrapped_full_buffer) = 64
   \<and> eq_sentinel ((pre_increment ^^ 64) (begin_rb wrapped_full_buffer))
         (end_rb wrapped_full_buffer)"
proof -
  have h1: "cursors_in_range 64 wrapped_full_buffer"
    by (simp add: cursors_in_range_def wrapped_full_buffer_def del: upt_rec_numeral)
  have h2: "full_rb wrapped_full_buffer"
    by (simp add: full_rb_def wrapped_full_buffer_def)
  have h3: "write_ptr wrapped_full_buffer = read_ptr wrapped_full_buffer"
    by (simp add: wrapped_full_buffer_def)
  note h4 = contents_wrapped_full_buffer
  have "(30::nat) < 64" by simp
  with full_buffer_iteration [OF h1 h2 h3 h4] h1 h2 h3 h4 show ?thesis
    by blast
qed

end
